theory Spec2Isabelle
  imports Complex_Main
begin

section \<open>The browser objects the client code works on\<close>

text \<open>
  The client code of \<^verbatim>\<open>providers.tsx\<close> (component \<^verbatim>\<open>WebSocketProvider\<close>) and of
  \<^verbatim>\<open>hooks/use-websocket.ts\<close> (hook \<^verbatim>\<open>useWebSocket\<close>) is a set of callbacks over browser
  objects: WebSocket instances, timeouts and the react-query cache. The model keeps
  these objects in explicit lists: every WebSocket the code constructs is appended to
  \<open>sockets\<close> and is named by its position there (the closure variable \<^verbatim>\<open>ws\<close> of the
  handlers and the content of \<^verbatim>\<open>wsRef.current\<close> are such positions); every pending
  timeout is a pair of its handle and its delay in milliseconds. Console output is
  not modelled.
\<close>

datatype ready_state = CONNECTING | OPEN | CLOSING | CLOSED

record web_socket =
  readyState :: ready_state
  sent :: "string list"

datatype js_error = InvalidStateError | TypeError

text \<open>
  \<^verbatim>\<open>ws.send(text)\<close>: throws InvalidStateError while the socket is still connecting,
  transmits the text when it is open, and drops it silently when the socket is
  closing or closed.
\<close>

definition ws_send :: "nat \<Rightarrow> string \<Rightarrow> web_socket list \<Rightarrow> js_error + web_socket list" where
  "ws_send k txt socks =
     (case readyState (socks ! k) of
        CONNECTING \<Rightarrow> Inl InvalidStateError
      | OPEN \<Rightarrow> Inr (socks[k := (socks ! k)\<lparr>sent := sent (socks ! k) @ [txt]\<rparr>])
      | CLOSING \<Rightarrow> Inr socks
      | CLOSED \<Rightarrow> Inr socks)"

text \<open>\<^verbatim>\<open>ws.close()\<close>: a socket that is connecting or open starts closing.\<close>

definition ws_close :: "nat \<Rightarrow> web_socket list \<Rightarrow> web_socket list" where
  "ws_close k socks =
     (case readyState (socks ! k) of
        CONNECTING \<Rightarrow> socks[k := (socks ! k)\<lparr>readyState := CLOSING\<rparr>]
      | OPEN \<Rightarrow> socks[k := (socks ! k)\<lparr>readyState := CLOSING\<rparr>]
      | CLOSING \<Rightarrow> socks
      | CLOSED \<Rightarrow> socks)"

definition set_readyState :: "nat \<Rightarrow> ready_state \<Rightarrow> web_socket list \<Rightarrow> web_socket list" where
  "set_readyState k r socks = socks[k := (socks ! k)\<lparr>readyState := r\<rparr>]"

definition new_WebSocket :: web_socket where
  "new_WebSocket = \<lparr>readyState = CONNECTING, sent = []\<rparr>"

text \<open>A socket counts as live while it is open or connecting.\<close>

definition live :: "web_socket \<Rightarrow> bool" where
  "live w = (readyState w = OPEN \<or> readyState w = CONNECTING)"

type_synonym timer = "nat \<times> rat"

definition clearTimeout :: "nat \<Rightarrow> timer list \<Rightarrow> timer list" where
  "clearTimeout h ts = filter (\<lambda>t. fst t \<noteq> h) ts"

text \<open>
  The react-query cache, as far as the handlers touch it: the set of query keys that
  are marked invalidated. \<^verbatim>\<open>invalidateQueries({ queryKey })\<close> marks the given key (a
  key stands for the queries filed under it); marking is a flag, not a count.
\<close>

type_synonym query_cache = "string list set"

definition invalidateQueries :: "string list \<Rightarrow> query_cache \<Rightarrow> query_cache" where
  "invalidateQueries key stale = insert key stale"

text \<open>
  What \<^verbatim>\<open>JSON.parse(event.data)\<close> followed by \<^verbatim>\<open>data.type\<close> can give: the parse throws
  (\<open>Unparsable\<close>); the text is \<^verbatim>\<open>null\<close>, whose member access throws (\<open>JsonNull\<close>); or
  the value has a \<^verbatim>\<open>type\<close> member that is a string (\<open>Some t\<close>) or has none that is a
  string (\<open>None\<close>).
\<close>

datatype message_data = Unparsable | JsonNull | JsonValue "string option"

section \<open>WebSocketProvider\<close>

definition RECONNECT_DELAY :: rat where
  "RECONNECT_DELAY = 3000"

definition MAX_RECONNECT_ATTEMPTS :: nat where
  "MAX_RECONNECT_ATTEMPTS = 5"

record provider =
  isConnected :: bool
  wsRef :: "nat option"
  reconnectTimeoutRef :: "nat option"
  reconnectAttemptsRef :: nat
  isMountedRef :: bool
  sockets :: "web_socket list"
  timers :: "timer list"
  nextHandle :: nat
  queryClient :: query_cache

definition initial_provider :: "query_cache \<Rightarrow> provider" where
  "initial_provider qc =
     \<lparr>isConnected = False, wsRef = None, reconnectTimeoutRef = None,
      reconnectAttemptsRef = 0, isMountedRef = True, sockets = [], timers = [],
      nextHandle = 0, queryClient = qc\<rparr>"

text \<open>
  \<^verbatim>\<open>connect\<close>. The constructor \<^verbatim>\<open>new WebSocket(WS_URL)\<close> throws for a URL the browser
  rejects; \<^verbatim>\<open>WS_URL\<close> comes from the environment, so whether it is accepted is the
  parameter \<open>urlOk\<close>.
\<close>

definition connect :: "bool \<Rightarrow> provider \<Rightarrow> provider" where
  "connect urlOk s =
     (if \<not> isMountedRef s then s
      else if (case wsRef s of
                 None \<Rightarrow> False
               | Some k \<Rightarrow> readyState (sockets s ! k) = OPEN \<or>
                           readyState (sockets s ! k) = CONNECTING) then s
      else if MAX_RECONNECT_ATTEMPTS \<le> reconnectAttemptsRef s then s
      else if urlOk then
        s\<lparr>sockets := sockets s @ [new_WebSocket], wsRef := Some (length (sockets s))\<rparr>
      else s\<lparr>isConnected := False\<rparr>)"

definition onopen :: "nat \<Rightarrow> provider \<Rightarrow> provider" where
  "onopen ws s =
     (if \<not> isMountedRef s then s\<lparr>sockets := ws_close ws (sockets s)\<rparr>
      else
        (let s1 = s\<lparr>isConnected := True, reconnectAttemptsRef := 0\<rparr>
         in case reconnectTimeoutRef s1 of
              None \<Rightarrow> s1
            | Some h \<Rightarrow> s1\<lparr>timers := clearTimeout h (timers s1), reconnectTimeoutRef := None\<rparr>))"

definition onmessage :: "nat \<Rightarrow> message_data \<Rightarrow> provider \<Rightarrow> provider" where
  "onmessage ws d s =
     (if \<not> isMountedRef s then s
      else
        (case d of
           Unparsable \<Rightarrow> s
         | JsonNull \<Rightarrow> s
         | JsonValue ty \<Rightarrow>
             if ty = Some ''ping'' then
               (case ws_send ws ''pong'' (sockets s) of
                  Inl e \<Rightarrow> s
                | Inr socks \<Rightarrow> s\<lparr>sockets := socks\<rparr>)
             else if ty = Some ''connected'' then s
             else
               (let s1 = (if ty = Some ''score_updated''
                          then s\<lparr>queryClient := invalidateQueries [''compliance-score''] (queryClient s)\<rparr>
                          else s)
                in if ty = Some ''alert_created''
                   then s1\<lparr>queryClient := invalidateQueries [''alerts''] (queryClient s1)\<rparr>
                   else s1)))"

definition onclose :: "nat \<Rightarrow> provider \<Rightarrow> provider" where
  "onclose ws s =
     (if \<not> isMountedRef s then s
      else
        (let s1 = s\<lparr>isConnected := False, wsRef := None\<rparr>
         in case reconnectTimeoutRef s1 of
              Some h \<Rightarrow> s1
            | None \<Rightarrow>
                (let n = reconnectAttemptsRef s1 + 1;
                     delay = RECONNECT_DELAY * (3 / 2) ^ (n - 1);
                     h = nextHandle s1
                 in s1\<lparr>reconnectAttemptsRef := n,
                       timers := timers s1 @ [(h, min delay 30000)],
                       nextHandle := h + 1,
                       reconnectTimeoutRef := Some h\<rparr>)))"

text \<open>
  \<^verbatim>\<open>send(data)\<close>. \<open>stringify\<close> stands for \<^verbatim>\<open>JSON.stringify\<close>, which returns the text
  or throws a TypeError (\<open>None\<close>); it is only evaluated when the socket is open.
\<close>

definition send :: "('d \<Rightarrow> string option) \<Rightarrow> 'd \<Rightarrow> provider \<Rightarrow> js_error + provider" where
  "send stringify d s =
     (case wsRef s of
        None \<Rightarrow> Inr s
      | Some k \<Rightarrow>
          if readyState (sockets s ! k) = OPEN then
            (case stringify d of
               None \<Rightarrow> Inl TypeError
             | Some txt \<Rightarrow>
                 (case ws_send k txt (sockets s) of
                    Inl e \<Rightarrow> Inl e
                  | Inr socks \<Rightarrow> Inr (s\<lparr>sockets := socks\<rparr>)))
          else Inr s)"

text \<open>The effect: its setup and the cleanup it returns.\<close>

definition useEffect_setup :: "bool \<Rightarrow> provider \<Rightarrow> provider" where
  "useEffect_setup urlOk s = connect urlOk (s\<lparr>isMountedRef := True\<rparr>)"

definition useEffect_cleanup :: "provider \<Rightarrow> provider" where
  "useEffect_cleanup s =
     (let s1 = s\<lparr>isMountedRef := False\<rparr>;
          s2 = (case reconnectTimeoutRef s1 of
                  None \<Rightarrow> s1
                | Some h \<Rightarrow> s1\<lparr>timers := clearTimeout h (timers s1), reconnectTimeoutRef := None\<rparr>)
      in case wsRef s2 of
           None \<Rightarrow> s2
         | Some k \<Rightarrow> s2\<lparr>sockets := ws_close k (sockets s2), wsRef := None\<rparr>)"

text \<open>The callback handed to \<^verbatim>\<open>setTimeout\<close> by \<^verbatim>\<open>onclose\<close>.\<close>

definition reconnect_callback :: "bool \<Rightarrow> provider \<Rightarrow> provider" where
  "reconnect_callback urlOk s = connect urlOk (s\<lparr>reconnectTimeoutRef := None\<rparr>)"

subsection \<open>Executions\<close>

text \<open>
  What the browser and React can make happen to a mounted provider. A timeout fires
  if it is pending, and is then no longer pending. A socket's open event is
  dispatched only from the connecting state, its message events only while it is open,
  its close event once, when it becomes closed; the browser updates the ready state
  before it runs the handler. \<open>CallSend r\<close> is a consumer calling \<^verbatim>\<open>send(data)\<close>, where
  \<open>r\<close> is what \<^verbatim>\<open>JSON.stringify(data)\<close> gives; an exception of \<^verbatim>\<open>send\<close> goes to that
  caller and leaves the provider as it was. The effect has an empty dependency list:
  its setup runs when the component mounts (the start of an execution) and its cleanup
  once, when the component unmounts; socket events may still arrive afterwards.
  An execution, as \<open>run\<close> gives it, has this one setup. In development React also
  runs the cleanup and then the setup again on the same refs (StrictMode, Fast Refresh);
  that start is \<open>remounted\<close> below, and what is proved of executions from \<open>mounted\<close>
  is not proved of it.
\<close>

datatype event =
  TimerFired nat
| SocketOpen nat
| SocketMessage nat message_data
| SocketError nat
| SocketClose nat
| CallSend "string option"
| Unmount

definition fire :: "bool \<Rightarrow> event \<Rightarrow> provider \<Rightarrow> provider option" where
  "fire urlOk e s =
     (case e of
        TimerFired h \<Rightarrow>
          if h \<in> fst ` set (timers s)
          then Some (reconnect_callback urlOk (s\<lparr>timers := clearTimeout h (timers s)\<rparr>))
          else None
      | SocketOpen k \<Rightarrow>
          if k < length (sockets s) \<and> readyState (sockets s ! k) = CONNECTING
          then Some (onopen k (s\<lparr>sockets := set_readyState k OPEN (sockets s)\<rparr>))
          else None
      | SocketMessage k d \<Rightarrow>
          if k < length (sockets s) \<and> readyState (sockets s ! k) = OPEN
          then Some (onmessage k d s)
          else None
      | SocketError k \<Rightarrow>
          if k < length (sockets s) then Some s else None
      | SocketClose k \<Rightarrow>
          if k < length (sockets s) \<and> readyState (sockets s ! k) \<noteq> CLOSED
          then Some (onclose k (s\<lparr>sockets := set_readyState k CLOSED (sockets s)\<rparr>))
          else None
      | CallSend r \<Rightarrow>
          (case send (\<lambda>_. r) () s of Inl err \<Rightarrow> Some s | Inr s' \<Rightarrow> Some s')
      | Unmount \<Rightarrow>
          if isMountedRef s then Some (useEffect_cleanup s) else None)"

fun run :: "bool \<Rightarrow> event list \<Rightarrow> provider \<Rightarrow> provider option" where
  "run urlOk [] s = Some s"
| "run urlOk (e # es) s =
     (case fire urlOk e s of None \<Rightarrow> None | Some s' \<Rightarrow> run urlOk es s')"

definition mounted :: "bool \<Rightarrow> query_cache \<Rightarrow> provider" where
  "mounted urlOk qc = useEffect_setup urlOk (initial_provider qc)"

text \<open>The provider after setup, cleanup and a second setup on the same refs.\<close>

definition remounted :: "bool \<Rightarrow> query_cache \<Rightarrow> provider" where
  "remounted urlOk qc = useEffect_setup urlOk (useEffect_cleanup (mounted urlOk qc))"


subsection \<open>What holds along every execution\<close>

text \<open>
  While the provider is mounted, a socket that is not closed is the one \<^verbatim>\<open>wsRef\<close> holds;
  after the cleanup every socket is closing or closed.
\<close>

definition socks_ok :: "provider \<Rightarrow> bool" where
  "socks_ok s =
     (\<forall>k<length (sockets s). readyState (sockets s ! k) \<noteq> CLOSED \<longrightarrow>
        (if isMountedRef s then wsRef s = Some k
         else readyState (sockets s ! k) = CLOSING))"

text \<open>
  \<^verbatim>\<open>wsRef\<close> holds a live socket of a mounted provider, and no reconnect is pending
  while it does.
\<close>

definition ref_ok :: "provider \<Rightarrow> bool" where
  "ref_ok s =
     (case wsRef s of
        None \<Rightarrow> True
      | Some k \<Rightarrow> k < length (sockets s) \<and> live (sockets s ! k) \<and> isMountedRef s \<and>
                  reconnectTimeoutRef s = None)"

text \<open>The pending timeouts are exactly the one \<^verbatim>\<open>reconnectTimeoutRef\<close> holds.\<close>

definition timers_ok :: "provider \<Rightarrow> bool" where
  "timers_ok s =
     (case reconnectTimeoutRef s of
        None \<Rightarrow> timers s = []
      | Some h \<Rightarrow> map fst (timers s) = [h] \<and> isMountedRef s)"

text \<open>Once the attempt counter is at its maximum, every socket is closed.\<close>

definition offline_ok :: "provider \<Rightarrow> bool" where
  "offline_ok s =
     (MAX_RECONNECT_ATTEMPTS \<le> reconnectAttemptsRef s \<longrightarrow>
        (\<forall>j<length (sockets s). readyState (sockets s ! j) = CLOSED) \<and> \<not> isConnected s)"

definition invar :: "provider \<Rightarrow> bool" where
  "invar s = (socks_ok s \<and> ref_ok s \<and> timers_ok s \<and> offline_ok s)"

text \<open>
  The persistent offline state: the attempt counter is at its maximum, the indicator
  is off, no socket is held and every socket ever made is closed.
\<close>

definition offline :: "provider \<Rightarrow> bool" where
  "offline s = (MAX_RECONNECT_ATTEMPTS \<le> reconnectAttemptsRef s \<and> \<not> isConnected s \<and>
     wsRef s = None \<and> (\<forall>j<length (sockets s). readyState (sockets s ! j) = CLOSED))"

section \<open>The hook useWebSocket\<close>

text \<open>
  \<^verbatim>\<open>hooks/use-websocket.ts\<close>, the hook \<^verbatim>\<open>MainLayout\<close> takes \<^verbatim>\<open>isConnected\<close> from for the
  header's badge. Its fields carry the source's names with the suffix \<open>H\<close>; it has no
  attempt counter and no \<^verbatim>\<open>send\<close>.
\<close>

record hook =
  isConnectedH :: bool
  wsRefH :: "nat option"
  reconnectTimeoutRefH :: "nat option"
  shouldReconnectRef :: bool
  socketsH :: "web_socket list"
  timersH :: "timer list"
  nextHandleH :: nat
  queryClientH :: query_cache

definition initial_hook :: "query_cache \<Rightarrow> hook" where
  "initial_hook qc =
     \<lparr>isConnectedH = False, wsRefH = None, reconnectTimeoutRefH = None,
      shouldReconnectRef = True, socketsH = [], timersH = [], nextHandleH = 0,
      queryClientH = qc\<rparr>"

definition connectH :: "bool \<Rightarrow> hook \<Rightarrow> hook" where
  "connectH urlOk s =
     (if \<not> shouldReconnectRef s then s
      else if (case wsRefH s of
                 None \<Rightarrow> False
               | Some k \<Rightarrow> readyState (socketsH s ! k) = OPEN) then s
      else if urlOk then
        s\<lparr>socketsH := socketsH s @ [new_WebSocket], wsRefH := Some (length (socketsH s))\<rparr>
      else s\<lparr>isConnectedH := False\<rparr>)"

definition onopenH :: "nat \<Rightarrow> hook \<Rightarrow> hook" where
  "onopenH ws s =
     (let s1 = s\<lparr>isConnectedH := True\<rparr>
      in case reconnectTimeoutRefH s1 of
           None \<Rightarrow> s1
         | Some h \<Rightarrow> s1\<lparr>timersH := clearTimeout h (timersH s1), reconnectTimeoutRefH := None\<rparr>)"

definition onmessageH :: "nat \<Rightarrow> message_data \<Rightarrow> hook \<Rightarrow> hook" where
  "onmessageH ws d s =
     (case d of
        Unparsable \<Rightarrow> s
      | JsonNull \<Rightarrow> s
      | JsonValue ty \<Rightarrow>
          (let s1 = (if ty = Some ''score_updated''
                     then s\<lparr>queryClientH := invalidateQueries [''compliance-score''] (queryClientH s)\<rparr>
                     else s)
           in if ty = Some ''alert_created''
              then s1\<lparr>queryClientH := invalidateQueries [''alerts''] (queryClientH s1)\<rparr>
              else s1))"

definition oncloseH :: "nat \<Rightarrow> hook \<Rightarrow> hook" where
  "oncloseH ws s =
     (let s1 = s\<lparr>isConnectedH := False, wsRefH := None\<rparr>
      in if shouldReconnectRef s1 \<and> reconnectTimeoutRefH s1 = None
         then s1\<lparr>timersH := timersH s1 @ [(nextHandleH s1, RECONNECT_DELAY)],
                 reconnectTimeoutRefH := Some (nextHandleH s1),
                 nextHandleH := nextHandleH s1 + 1\<rparr>
         else s1)"

definition reconnect_callbackH :: "bool \<Rightarrow> hook \<Rightarrow> hook" where
  "reconnect_callbackH urlOk s = connectH urlOk (s\<lparr>reconnectTimeoutRefH := None\<rparr>)"

definition useEffect_setupH :: "bool \<Rightarrow> hook \<Rightarrow> hook" where
  "useEffect_setupH urlOk s = connectH urlOk (s\<lparr>shouldReconnectRef := True\<rparr>)"

definition useEffect_cleanupH :: "hook \<Rightarrow> hook" where
  "useEffect_cleanupH s =
     (let s1 = s\<lparr>shouldReconnectRef := False\<rparr>;
          s2 = (case reconnectTimeoutRefH s1 of
                  None \<Rightarrow> s1
                | Some h \<Rightarrow> s1\<lparr>timersH := clearTimeout h (timersH s1), reconnectTimeoutRefH := None\<rparr>)
      in case wsRefH s2 of
           None \<Rightarrow> s2
         | Some k \<Rightarrow> s2\<lparr>socketsH := ws_close k (socketsH s2), wsRefH := None\<rparr>)"

text \<open>The same events, delivered to the hook; nobody can call a \<^verbatim>\<open>send\<close> of the hook.\<close>

definition fireH :: "bool \<Rightarrow> event \<Rightarrow> hook \<Rightarrow> hook option" where
  "fireH urlOk e s =
     (case e of
        TimerFired h \<Rightarrow>
          if h \<in> fst ` set (timersH s)
          then Some (reconnect_callbackH urlOk (s\<lparr>timersH := clearTimeout h (timersH s)\<rparr>))
          else None
      | SocketOpen k \<Rightarrow>
          if k < length (socketsH s) \<and> readyState (socketsH s ! k) = CONNECTING
          then Some (onopenH k (s\<lparr>socketsH := set_readyState k OPEN (socketsH s)\<rparr>))
          else None
      | SocketMessage k d \<Rightarrow>
          if k < length (socketsH s) \<and> readyState (socketsH s ! k) = OPEN
          then Some (onmessageH k d s)
          else None
      | SocketError k \<Rightarrow>
          if k < length (socketsH s) then Some s else None
      | SocketClose k \<Rightarrow>
          if k < length (socketsH s) \<and> readyState (socketsH s ! k) \<noteq> CLOSED
          then Some (oncloseH k (s\<lparr>socketsH := set_readyState k CLOSED (socketsH s)\<rparr>))
          else None
      | CallSend r \<Rightarrow> None
      | Unmount \<Rightarrow>
          if shouldReconnectRef s then Some (useEffect_cleanupH s) else None)"

fun runH :: "bool \<Rightarrow> event list \<Rightarrow> hook \<Rightarrow> hook option" where
  "runH urlOk [] s = Some s"
| "runH urlOk (e # es) s =
     (case fireH urlOk e s of None \<Rightarrow> None | Some s' \<Rightarrow> runH urlOk es s')"

definition mountedH :: "bool \<Rightarrow> query_cache \<Rightarrow> hook" where
  "mountedH urlOk qc = useEffect_setupH urlOk (initial_hook qc)"

section \<open>The backoff formula as the specification words it\<close>

text \<open>
  The specification's delay for the \<open>n\<close>-th consecutive failure:
  \<open>min (baseDelay * 1.5 ^ n) cap\<close> with base delay 3000 and cap 30000.
\<close>

definition spec_delay :: "nat \<Rightarrow> rat" where
  "spec_delay n = min (3000 * (3 / 2) ^ n) 30000"

section \<open>The workflow orchestrator\<close>

text \<open>
  Modelled from the spec: the orchestrator (\<^verbatim>\<open>backend/graph/workflow.py\<close>) is not among
  the source files, so its data follows the specification's data model: a run's status
  is one of \<open>pending\<close>, \<open>running\<close>, \<open>succeeded\<close>, \<open>failed\<close>, the last two being
  terminal, and a run carries its subject document id.
\<close>

datatype run_status = Pending | Running | Succeeded | Failed

definition terminal :: "run_status \<Rightarrow> bool" where
  "terminal st = (st = Succeeded \<or> st = Failed)"

record 'p workflow_run =
  subject_id :: string
  payload :: 'p
  status :: run_status

datatype submit_error = AlreadyRunning

text \<open>
  Modelled from the spec: the orchestrator's \<^verbatim>\<open>submit(subjectId, payload) -> RunId\<close>,
  which is missing from the sources. It fails with \<open>AlreadyRunning\<close> if a non-terminal
  run exists for the subject id; otherwise it creates the run. Runs are never deleted,
  so a run's id is its position in the list of runs.
\<close>

definition submit ::
  "string \<Rightarrow> 'p \<Rightarrow> 'p workflow_run list \<Rightarrow> (submit_error + nat) \<times> 'p workflow_run list" where
  "submit subj p rs =
     (if list_ex (\<lambda>r. subject_id r = subj \<and> \<not> terminal (status r)) rs
      then (Inl AlreadyRunning, rs)
      else (Inr (length rs), rs @ [\<lparr>subject_id = subj, payload = p, status = Pending\<rparr>]))"

text \<open>
  Modelled from the spec: the part of a run the Decision/Alert step reads and writes,
  missing from the sources like the step itself: the score of the Score step, the
  \<open>alert_sent\<close> flag, the number of invocations of the notification capability, and
  the run's status. The default threshold is 80.
\<close>

record decision_state =
  score :: rat
  alert_sent :: bool
  notifications :: nat
  run_status :: run_status

definition DEFAULT_THRESHOLD :: rat where
  "DEFAULT_THRESHOLD = 80"

text \<open>
  Modelled from the spec: the Decision/Alert step (\<^verbatim>\<open>alert_node\<close> and the conditional
  edge before it), which is missing from the sources. If the score is below the
  threshold it invokes the notification capability (counted in \<open>notifications\<close>) and
  records \<open>alert_sent = true\<close>; otherwise the run terminates without alerting.
\<close>

definition decision_step :: "rat \<Rightarrow> decision_state \<Rightarrow> decision_state" where
  "decision_step threshold r =
     (if score r < threshold
      then r\<lparr>notifications := notifications r + 1, alert_sent := True, run_status := Succeeded\<rparr>
      else r\<lparr>run_status := Succeeded\<rparr>)"

section \<open>Lemmas about the model\<close>

lemmas provider_defs =
  mounted_def useEffect_setup_def useEffect_cleanup_def initial_provider_def connect_def
  onopen_def onmessage_def onclose_def reconnect_callback_def fire_def send_def
  ws_send_def ws_close_def set_readyState_def new_WebSocket_def clearTimeout_def
  invalidateQueries_def RECONNECT_DELAY_def MAX_RECONNECT_ATTEMPTS_def live_def Let_def

lemmas hook_defs =
  mountedH_def useEffect_setupH_def useEffect_cleanupH_def initial_hook_def connectH_def
  onopenH_def onmessageH_def oncloseH_def reconnect_callbackH_def fireH_def
  ws_send_def ws_close_def set_readyState_def new_WebSocket_def clearTimeout_def
  invalidateQueries_def RECONNECT_DELAY_def live_def Let_def

subsection \<open>Ready states under the socket operations\<close>

lemma invar_mounted: "invar (mounted urlOk qc)"
  by (auto simp: invar_def socks_ok_def ref_ok_def timers_ok_def offline_ok_def mounted_def
      useEffect_setup_def initial_provider_def connect_def MAX_RECONNECT_ATTEMPTS_def new_WebSocket_def live_def)

lemma invar_connect:
  "invar s \<Longrightarrow> reconnectTimeoutRef s = None \<Longrightarrow> invar (connect urlOk s)"
  unfolding invar_def
  apply (intro conjI)
  subgoal by (auto simp: socks_ok_def ref_ok_def connect_def nth_append new_WebSocket_def live_def split: option.splits)
  subgoal by (auto simp: socks_ok_def ref_ok_def connect_def nth_append new_WebSocket_def live_def split: option.splits)
  subgoal by (auto simp: timers_ok_def connect_def split: option.splits)
  subgoal by (auto simp: offline_ok_def connect_def split: option.splits if_splits)
  done


lemma socks_okD:
  "socks_ok s \<Longrightarrow> k < length (sockets s) \<Longrightarrow> readyState (sockets s ! k) \<noteq> CLOSED \<Longrightarrow>
     (if isMountedRef s then wsRef s = Some k else readyState (sockets s ! k) = CLOSING)"
  by (simp add: socks_ok_def)

lemma others_closed:
  assumes "socks_ok s" "isMountedRef s" "k < length (sockets s)"
    "readyState (sockets s ! k) \<noteq> CLOSED"
  shows "\<forall>j<length (sockets s). j \<noteq> k \<longrightarrow> readyState (sockets s ! j) = CLOSED"
proof (intro allI impI)
  fix j assume j: "j < length (sockets s)" "j \<noteq> k"
  from socks_okD[OF assms(1,3,4)] assms(2) have "wsRef s = Some k" by simp
  moreover have "readyState (sockets s ! j) \<noteq> CLOSED \<longrightarrow> wsRef s = Some j"
    using socks_okD[OF assms(1) j(1)] assms(2) by auto
  ultimately show "readyState (sockets s ! j) = CLOSED" using j(2) by auto
qed

lemma unmounted_not_live:
  assumes "socks_ok s" "\<not> isMountedRef s" "k < length (sockets s)"
  shows "readyState (sockets s ! k) = CLOSED \<or> readyState (sockets s ! k) = CLOSING"
  using socks_okD[OF assms(1,3)] assms(2) by auto




lemma length_ws_close [simp]: "length (ws_close k socks) = length socks"
  by (simp add: ws_close_def split: ready_state.splits)

lemma length_set_readyState [simp]: "length (set_readyState k r socks) = length socks"
  by (simp add: set_readyState_def)

lemma readyState_ws_close:
  "j < length socks \<Longrightarrow>
   readyState (ws_close k socks ! j) =
     (if j = k \<and> live (socks ! k) then CLOSING else readyState (socks ! j))"
  by (cases "j = k") (auto simp: ws_close_def live_def nth_list_update split: ready_state.splits)

lemma readyState_set_readyState:
  "j < length socks \<Longrightarrow>
   readyState (set_readyState k r socks ! j) = (if j = k then r else readyState (socks ! j))"
  by (cases "j = k") (auto simp: set_readyState_def nth_list_update)

lemma readyState_sent_update:
  "readyState (socks[k := (socks ! k)\<lparr>sent := x\<rparr>] ! j) = readyState (socks ! j)"
  by (cases "k < length socks"; cases "j = k") (simp_all add: nth_list_update list_update_beyond)

lemma invar_frame:
  assumes "length (sockets s') = length (sockets s)"
    "\<forall>j<length (sockets s). readyState (sockets s' ! j) = readyState (sockets s ! j)"
    "wsRef s' = wsRef s" "reconnectTimeoutRef s' = reconnectTimeoutRef s"
    "reconnectAttemptsRef s' = reconnectAttemptsRef s" "isMountedRef s' = isMountedRef s"
    "isConnected s' = isConnected s" "timers s' = timers s"
  shows "invar s' = invar s"
proof -
  have "socks_ok s' = socks_ok s" by (simp add: socks_ok_def assms)
  moreover have "ref_ok s' = ref_ok s" by (auto simp: ref_ok_def live_def assms split: option.split)
  moreover have "timers_ok s' = timers_ok s" by (simp add: timers_ok_def assms split: option.split)
  moreover have "offline_ok s' = offline_ok s" by (simp add: offline_ok_def assms)
  ultimately show ?thesis by (simp add: invar_def)
qed

lemma onmessage_frame:
  "length (sockets (onmessage k d s)) = length (sockets s) \<and>
   (\<forall>j<length (sockets s). readyState (sockets (onmessage k d s) ! j) = readyState (sockets s ! j)) \<and>
   wsRef (onmessage k d s) = wsRef s \<and>
   reconnectTimeoutRef (onmessage k d s) = reconnectTimeoutRef s \<and>
   reconnectAttemptsRef (onmessage k d s) = reconnectAttemptsRef s \<and>
   isMountedRef (onmessage k d s) = isMountedRef s \<and>
   isConnected (onmessage k d s) = isConnected s \<and>
   timers (onmessage k d s) = timers s \<and>
   nextHandle (onmessage k d s) = nextHandle s"
  by (auto simp: onmessage_def ws_send_def Let_def readyState_sent_update
       split: message_data.splits ready_state.splits)

lemma invar_onmessage: "invar s \<Longrightarrow> invar (onmessage k d s)"
  using onmessage_frame[of k d s] invar_frame[of "onmessage k d s" s] by simp

lemma send_frame:
  assumes "send f d s = Inr s'"
  shows "length (sockets s') = length (sockets s) \<and>
   (\<forall>j<length (sockets s). readyState (sockets s' ! j) = readyState (sockets s ! j)) \<and>
   wsRef s' = wsRef s \<and>
   reconnectTimeoutRef s' = reconnectTimeoutRef s \<and>
   reconnectAttemptsRef s' = reconnectAttemptsRef s \<and>
   isMountedRef s' = isMountedRef s \<and>
   isConnected s' = isConnected s \<and>
   timers s' = timers s \<and>
   nextHandle s' = nextHandle s \<and> queryClient s' = queryClient s"
  using assms
  by (auto simp: send_def ws_send_def readyState_sent_update
         split: if_splits option.splits)

lemma invar_send: "invar s \<Longrightarrow> send f d s = Inr s' \<Longrightarrow> invar s'"
  using send_frame[of f d s s'] invar_frame[of s' s] by simp

lemma invar_cleanup:
  assumes "invar s" "isMountedRef s"
  shows "invar (useEffect_cleanup s)"
proof -
  have so: "socks_ok s" and ro: "ref_ok s" and to: "timers_ok s" and oo: "offline_ok s"
    using assms(1) by (simp_all add: invar_def)
  have len: "length (sockets (useEffect_cleanup s)) = length (sockets s)"
    by (simp add: useEffect_cleanup_def Let_def split: option.splits)
  have flds: "\<not> isMountedRef (useEffect_cleanup s)" "wsRef (useEffect_cleanup s) = None"
    "reconnectTimeoutRef (useEffect_cleanup s) = None"
    "reconnectAttemptsRef (useEffect_cleanup s) = reconnectAttemptsRef s"
    "isConnected (useEffect_cleanup s) = isConnected s"
    by (simp_all add: useEffect_cleanup_def Let_def split: option.splits)
  have tm: "timers (useEffect_cleanup s) = []"
    using to by (auto simp: useEffect_cleanup_def Let_def timers_ok_def clearTimeout_def split: option.splits)
  have rs: "readyState (sockets (useEffect_cleanup s) ! j) =
      (if wsRef s = Some j then CLOSING else CLOSED)" if j: "j < length (sockets s)" for j
  proof (cases "wsRef s")
    case None
    then have "readyState (sockets s ! j) = CLOSED"
      using socks_okD[OF so j] assms(2) by auto
    then show ?thesis using None by (simp add: useEffect_cleanup_def Let_def split: option.splits)
  next
    case (Some k)
    then have k: "k < length (sockets s)" "live (sockets s ! k)" using ro by (simp_all add: ref_ok_def)
    have "j \<noteq> k \<Longrightarrow> readyState (sockets s ! j) = CLOSED"
      using socks_okD[OF so j] assms(2) Some by auto
    then show ?thesis using Some k j
      by (simp add: useEffect_cleanup_def Let_def readyState_ws_close split: option.splits)
  qed
  have "socks_ok (useEffect_cleanup s)"
    using rs len flds(1) by (simp add: socks_ok_def)
  moreover have "ref_ok (useEffect_cleanup s)" using flds by (simp add: ref_ok_def)
  moreover have "timers_ok (useEffect_cleanup s)" using flds tm by (simp add: timers_ok_def)
  moreover have "offline_ok (useEffect_cleanup s)"
  proof (cases "MAX_RECONNECT_ATTEMPTS \<le> reconnectAttemptsRef s")
    case True
    then have c: "\<forall>j<length (sockets s). readyState (sockets s ! j) = CLOSED" and nc: "\<not> isConnected s"
      using oo by (simp_all add: offline_ok_def)
    have "wsRef s = None" using ro c by (auto simp: ref_ok_def live_def split: option.splits)
    then show ?thesis using rs len flds nc by (simp add: offline_ok_def)
  next
    case False
    then show ?thesis using flds by (simp add: offline_ok_def)
  qed
  ultimately show ?thesis by (simp add: invar_def)
qed

lemma invar_timer:
  assumes "invar s" "h \<in> fst ` set (timers s)"
  shows "invar (reconnect_callback urlOk (s\<lparr>timers := clearTimeout h (timers s)\<rparr>))"
proof -
  have to: "timers_ok s" using assms(1) by (simp add: invar_def)
  have e: "clearTimeout h (timers s) = []" and m: "isMountedRef s"
    using to assms(2) by (auto simp: timers_ok_def clearTimeout_def split: option.splits)
  have "invar (s\<lparr>timers := [], reconnectTimeoutRef := None\<rparr>)"
    using assms(1)
    by (simp add: invar_def socks_ok_def ref_ok_def timers_ok_def offline_ok_def split: option.splits)
  then show ?thesis
    unfolding reconnect_callback_def using invar_connect e by simp
qed



lemma invar_fire_open:
  assumes "invar s" "k < length (sockets s)" "readyState (sockets s ! k) = CONNECTING"
  shows "invar (onopen k (s\<lparr>sockets := set_readyState k OPEN (sockets s)\<rparr>))"
proof (cases "isMountedRef s")
  case True
  have so: "socks_ok s" and to: "timers_ok s" using assms(1) by (simp_all add: invar_def)
  have oc: "\<forall>j<length (sockets s). j \<noteq> k \<longrightarrow> readyState (sockets s ! j) = CLOSED"
    using others_closed[OF so True assms(2)] assms(3) by simp
  have r: "wsRef s = Some k" using socks_okD[OF so assms(2)] assms(3) True by simp
  have "socks_ok (onopen k (s\<lparr>sockets := set_readyState k OPEN (sockets s)\<rparr>))"
    using True oc r assms(2)
    by (simp add: socks_ok_def onopen_def set_readyState_def nth_list_update Let_def split: option.splits)
  moreover have "ref_ok (onopen k (s\<lparr>sockets := set_readyState k OPEN (sockets s)\<rparr>))"
    using True r assms(2)
    by (simp add: ref_ok_def onopen_def set_readyState_def nth_list_update Let_def live_def split: option.splits)
  moreover have "timers_ok (onopen k (s\<lparr>sockets := set_readyState k OPEN (sockets s)\<rparr>))"
    using True to
    by (auto simp: timers_ok_def onopen_def clearTimeout_def Let_def split: option.splits)
  moreover have "offline_ok (onopen k (s\<lparr>sockets := set_readyState k OPEN (sockets s)\<rparr>))"
    using True
    by (simp add: offline_ok_def onopen_def Let_def MAX_RECONNECT_ATTEMPTS_def split: option.splits)
  ultimately show ?thesis by (simp add: invar_def)
next
  case False
  have so: "socks_ok s" using assms(1) by (simp add: invar_def)
  show ?thesis using unmounted_not_live[OF so False assms(2)] assms(3) by simp
qed


lemma invar_fire_close:
  assumes "invar s" "k < length (sockets s)" "readyState (sockets s ! k) \<noteq> CLOSED"
  shows "invar (onclose k (s\<lparr>sockets := set_readyState k CLOSED (sockets s)\<rparr>))"
proof (cases "isMountedRef s")
  case True
  have so: "socks_ok s" using assms(1) by (simp add: invar_def)
  have oc: "\<forall>j<length (sockets s). j \<noteq> k \<longrightarrow> readyState (sockets s ! j) = CLOSED"
    using others_closed[OF so True assms(2,3)] .
  have all: "\<forall>j<length (sockets s). readyState (set_readyState k CLOSED (sockets s) ! j) = CLOSED"
    using oc assms(2) by (simp add: set_readyState_def nth_list_update)
  show ?thesis using assms(1,2) True all unfolding invar_def
    apply (intro conjI)
    subgoal by (simp add: socks_ok_def onclose_def Let_def set_readyState_def split: option.splits)
    subgoal by (simp add: ref_ok_def onclose_def Let_def split: option.splits)
    subgoal by (simp add: timers_ok_def onclose_def Let_def split: option.splits)
    subgoal by (simp add: offline_ok_def onclose_def Let_def set_readyState_def split: option.splits)
    done
next
  case False
  have so: "socks_ok s" using assms(1) by (simp add: invar_def)
  have c: "readyState (sockets s ! k) = CLOSING"
    using unmounted_not_live[OF so False assms(2)] assms(3) by simp
  have oth: "\<forall>j<length (sockets s). readyState (sockets s ! j) = CLOSED \<or> readyState (sockets s ! j) = CLOSING"
    using unmounted_not_live[OF so False] by simp
  show ?thesis using assms(1,2) False c oth unfolding invar_def
    apply (intro conjI)
    subgoal by (auto simp add: socks_ok_def onclose_def set_readyState_def nth_list_update)
    subgoal by (simp add: ref_ok_def onclose_def set_readyState_def split: option.splits)
    subgoal by (simp add: timers_ok_def onclose_def split: option.splits)
    subgoal by (auto simp add: offline_ok_def onclose_def set_readyState_def nth_list_update split: if_splits)
    done
qed


lemma invar_fire:
  assumes "invar s" "fire urlOk e s = Some s'"
  shows "invar s'"
proof (cases e)
  case (TimerFired h)
  then show ?thesis using assms invar_timer[of s h urlOk] by (simp add: fire_def split: if_splits)
next
  case (SocketOpen k)
  then show ?thesis using assms invar_fire_open[of s k] by (simp add: fire_def split: if_splits)
next
  case (SocketMessage k d)
  then show ?thesis using assms invar_onmessage[of s k d] by (simp add: fire_def split: if_splits)
next
  case (SocketError k)
  then show ?thesis using assms by (simp add: fire_def split: if_splits)
next
  case (SocketClose k)
  then show ?thesis using assms invar_fire_close[of s k] by (simp add: fire_def split: if_splits)
next
  case (CallSend r)
  then show ?thesis using assms invar_send[of s "\<lambda>_. r" "()"]
    by (auto simp: fire_def split: sum.splits)
next
  case Unmount
  then show ?thesis using assms invar_cleanup[of s] by (simp add: fire_def split: if_splits)
qed

lemma invar_run:
  "invar s \<Longrightarrow> run urlOk es s = Some s' \<Longrightarrow> invar s'"
proof (induction es arbitrary: s)
  case Nil
  then show ?case by simp
next
  case (Cons e es)
  then obtain s1 where f: "fire urlOk e s = Some s1" and r: "run urlOk es s1 = Some s'"
    by (auto split: option.splits)
  from invar_fire[OF Cons.prems(1) f] Cons.IH r show ?case by blast
qed

lemma run_invar:
  "run urlOk es (mounted urlOk qc) = Some s \<Longrightarrow> invar s"
  using invar_run[OF invar_mounted] .

lemma live_mounted:
  assumes "invar s" "k < length (sockets s)" "live (sockets s ! k)"
  shows "isMountedRef s \<and> wsRef s = Some k \<and> reconnectTimeoutRef s = None"
proof -
  have so: "socks_ok s" and ro: "ref_ok s" using assms(1) by (simp_all add: invar_def)
  have nc: "readyState (sockets s ! k) \<noteq> CLOSED" "readyState (sockets s ! k) \<noteq> CLOSING"
    using assms(3) by (auto simp: live_def)
  have m: "isMountedRef s" using socks_okD[OF so assms(2) nc(1)] nc(2) by (auto split: if_splits)
  then have r: "wsRef s = Some k" using socks_okD[OF so assms(2) nc(1)] by simp
  then show ?thesis using m ro by (simp add: ref_ok_def)
qed

lemma filter_at_most_one:
  assumes "\<forall>i<length xs. \<forall>j<length xs. P (xs ! i) \<longrightarrow> P (xs ! j) \<longrightarrow> i = j"
  shows "length (filter P xs) \<le> 1"
  using assms
proof (induction xs)
  case Nil
  then show ?case by simp
next
  case (Cons x xs)
  have tl: "\<forall>i<length xs. \<forall>j<length xs. P (xs ! i) \<longrightarrow> P (xs ! j) \<longrightarrow> i = j"
  proof (intro allI impI)
    fix i j assume "i < length xs" "j < length xs" "P (xs ! i)" "P (xs ! j)"
    then have "Suc i = Suc j" using Cons.prems[rule_format, of "Suc i" "Suc j"] by simp
    then show "i = j" by simp
  qed
  show ?case
  proof (cases "P x")
    case True
    have "\<not> P y" if "y \<in> set xs" for y
    proof
      assume py: "P y"
      from that obtain j where "j < length xs" "xs ! j = y" by (auto simp: in_set_conv_nth)
      then have "0 = Suc j" using Cons.prems[rule_format, of 0 "Suc j"] True py by simp
      then show False by simp
    qed
    then have "filter P xs = []" by (simp add: filter_empty_conv)
    then show ?thesis using True by simp
  next
    case False
    then show ?thesis using Cons.IH[OF tl] by simp
  qed
qed

lemma live_unique:
  assumes "invar s" "i < length (sockets s)" "j < length (sockets s)"
    "live (sockets s ! i)" "live (sockets s ! j)"
  shows "i = j"
  using live_mounted[OF assms(1,2,4)] live_mounted[OF assms(1,3,5)] by simp

lemma invar_offline:
  assumes "invar s" "MAX_RECONNECT_ATTEMPTS \<le> reconnectAttemptsRef s"
  shows "offline s"
proof -
  have c: "\<forall>j<length (sockets s). readyState (sockets s ! j) = CLOSED" and n: "\<not> isConnected s"
    using assms by (simp_all add: invar_def offline_ok_def)
  have "ref_ok s" using assms(1) by (simp add: invar_def)
  then have "wsRef s = None" using c by (auto simp: ref_ok_def live_def split: option.splits)
  then show ?thesis using c n assms(2) by (simp add: offline_def)
qed

lemma offline_fire:
  assumes "offline s" "fire urlOk e s = Some s'"
  shows "offline s' \<and> sockets s' = sockets s"
proof (cases e)
  case (TimerFired h)
  then show ?thesis using assms
    by (auto simp: fire_def offline_def reconnect_callback_def connect_def split: if_splits)
next
  case (SocketOpen k)
  then show ?thesis using assms by (auto simp: fire_def offline_def split: if_splits)
next
  case (SocketMessage k d)
  then show ?thesis using assms by (auto simp: fire_def offline_def split: if_splits)
next
  case (SocketError k)
  then show ?thesis using assms by (auto simp: fire_def split: if_splits)
next
  case (SocketClose k)
  then show ?thesis using assms by (auto simp: fire_def offline_def split: if_splits)
next
  case (CallSend r)
  then show ?thesis using assms by (auto simp: fire_def offline_def send_def)
next
  case Unmount
  then show ?thesis using assms
    by (auto simp: fire_def offline_def useEffect_cleanup_def Let_def split: if_splits option.splits)
qed

lemma offline_run:
  "offline s \<Longrightarrow> run urlOk es s = Some s' \<Longrightarrow> offline s' \<and> sockets s' = sockets s"
proof (induction es arbitrary: s)
  case Nil
  then show ?case by simp
next
  case (Cons e es)
  then obtain s1 where f: "fire urlOk e s = Some s1" and r: "run urlOk es s1 = Some s'"
    by (auto split: option.splits)
  from offline_fire[OF Cons.prems(1) f] Cons.IH[OF _ r] show ?case by simp
qed

section \<open>The claims\<close>

text \<open>
  The delays are rationals. The values the code computes in floating point,
  \<open>3000 * 1.5 ^ k\<close> for \<open>k \<le> 4\<close>, are 3000, 4500, 6750, 10125 and 15187.5, each exact
  in binary64, so the rational arithmetic is the code's.
\<close>

text \<open>
  C1 (as amended). In every execution of WebSocketProvider, the close event of a socket
  that arrives while the provider is mounted makes the failure count \<open>n\<close> one larger
  (\<open>1 \<le> n \<le> 5\<close>) and schedules the one pending reconnect after
  \<open>min (RECONNECT_DELAY * 1.5 ^ (n - 1)) 30000\<close> milliseconds: the exponent is \<open>n - 1\<close>,
  so the first retry waits the base delay. The hook useWebSocket schedules its reconnect
  after the constant \<open>RECONNECT_DELAY\<close>.
\<close>

theorem C1_reconnect_delay:
  assumes "run urlOk es (mounted urlOk qc) = Some s"
    and "isMountedRef s"
    and "fire urlOk (SocketClose k) s = Some s'"
  shows "reconnectAttemptsRef s' = reconnectAttemptsRef s + 1 \<and>
         reconnectAttemptsRef s' \<le> MAX_RECONNECT_ATTEMPTS \<and>
         timers s' = [(nextHandle s,
            min (RECONNECT_DELAY * (3 / 2) ^ (reconnectAttemptsRef s' - 1)) 30000)] \<and>
         (shouldReconnectRef h \<and> reconnectTimeoutRefH h = None \<longrightarrow>
            timersH (oncloseH j h) = timersH h @ [(nextHandleH h, RECONNECT_DELAY)])"
proof -
  have inv: "invar s" using run_invar[OF assms(1)] .
  have k: "k < length (sockets s)" "readyState (sockets s ! k) \<noteq> CLOSED"
    and s': "s' = onclose k (s\<lparr>sockets := set_readyState k CLOSED (sockets s)\<rparr>)"
    using assms(3) by (auto simp: fire_def split: if_splits)
  have so: "socks_ok s" and ro: "ref_ok s" and to: "timers_ok s" and oo: "offline_ok s"
    using inv by (simp_all add: invar_def)
  have r: "wsRef s = Some k" using socks_okD[OF so k] assms(2) by simp
  then have t: "reconnectTimeoutRef s = None" using ro by (simp add: ref_ok_def)
  then have tm: "timers s = []" using to by (simp add: timers_ok_def)
  have lt: "reconnectAttemptsRef s < MAX_RECONNECT_ATTEMPTS"
    using oo k by (auto simp: offline_ok_def)
  have p: "reconnectAttemptsRef s' = reconnectAttemptsRef s + 1 \<and>
         reconnectAttemptsRef s' \<le> MAX_RECONNECT_ATTEMPTS \<and>
         timers s' = [(nextHandle s,
            min (RECONNECT_DELAY * (3 / 2) ^ (reconnectAttemptsRef s' - 1)) 30000)]"
    using s' assms(2) t tm lt by (simp add: onclose_def Let_def)
  have q: "shouldReconnectRef h \<and> reconnectTimeoutRefH h = None \<longrightarrow>
            timersH (oncloseH j h) = timersH h @ [(nextHandleH h, RECONNECT_DELAY)]"
    by (simp add: oncloseH_def Let_def)
  from p q show ?thesis by blast
qed

theorem C1_reconnect_delay_witness:
  "(case run True [SocketClose 0, TimerFired 0] (mounted True {}) of
      None \<Rightarrow> False
    | Some s \<Rightarrow> isMountedRef s \<and> reconnectAttemptsRef s = 1 \<and>
        (case fire True (SocketClose 1) s of
           None \<Rightarrow> False
         | Some s' \<Rightarrow> reconnectAttemptsRef s' = 2 \<and> timers s' = [(1, 4500)]))
   \<and> shouldReconnectRef (mountedH True {}) \<and> reconnectTimeoutRefH (mountedH True {}) = None
   \<and> timersH (oncloseH 0 (mountedH True {})) = [(0, 3000)]"
proof -
  obtain s where s: "run True [SocketClose 0, TimerFired 0] (mounted True {}) = Some s"
    by (simp add: provider_defs)
  have a: "isMountedRef s" "reconnectAttemptsRef s = 1" "nextHandle s = 1"
    using s by (auto simp: provider_defs)
  obtain s' where s': "fire True (SocketClose 1) s = Some s'"
    using s by (auto simp: provider_defs)
  have b: "shouldReconnectRef (mountedH True {})" "reconnectTimeoutRefH (mountedH True {}) = None"
    "timersH (mountedH True {}) = []" "nextHandleH (mountedH True {}) = 0"
    by (simp_all add: hook_defs)
  from C1_reconnect_delay[OF s a(1) s', of "mountedH True {}" 0] a b
  have "reconnectAttemptsRef s' = 2 \<and> timers s' = [(1, 4500)] \<and>
        timersH (oncloseH 0 (mountedH True {})) = [(0, 3000)]"
    by (simp add: RECONNECT_DELAY_def)
  with a b show ?thesis
    by (simp only: s s' option.case)
qed

text \<open>
  The claim as stated fails at the first failure: the count is 1 and the delay is 3000,
  where the specification's formula gives 4500.
\<close>

theorem C1_counterexample:
  "fire True (SocketClose 0) (mounted True {}) =
     Some \<lparr>isConnected = False, wsRef = None, reconnectTimeoutRef = Some 0,
          reconnectAttemptsRef = 1, isMountedRef = True,
          sockets = [\<lparr>readyState = CLOSED, sent = []\<rparr>], timers = [(0, 3000)],
          nextHandle = 1, queryClient = {}\<rparr>
   \<and> spec_delay 1 = 4500"
  by (simp add: provider_defs spec_delay_def)

text \<open>
  C2 (as amended). In every execution of WebSocketProvider in which the effect's setup
  runs once (the mount, then any timer, socket, send and cleanup events), from a state
  in which the attempt counter has reached \<open>MAX_RECONNECT_ATTEMPTS\<close> on, whatever
  happens next, no socket is created (\<open>connect\<close> changes nothing), no socket is live
  and \<open>isConnected\<close> stays false; nothing is said here of an execution with a second
  setup. The hook useWebSocket, from which MainLayout feeds the header's badge, has
  no counter: while it is mounted a close with no reconnect pending schedules one, and
  the reconnect makes a new socket whenever the hook holds none.
\<close>

theorem C2_offline_after_max:
  assumes "run urlOk es (mounted urlOk qc) = Some s"
    and "MAX_RECONNECT_ATTEMPTS \<le> reconnectAttemptsRef s"
    and "run urlOk es' s = Some s'"
  shows "sockets s' = sockets s \<and> \<not> list_ex live (sockets s') \<and> \<not> isConnected s' \<and>
         MAX_RECONNECT_ATTEMPTS \<le> reconnectAttemptsRef s' \<and> connect urlOk s' = s' \<and>
         (shouldReconnectRef h \<and> reconnectTimeoutRefH h = None \<longrightarrow>
            reconnectTimeoutRefH (oncloseH j h) = Some (nextHandleH h)) \<and>
         (shouldReconnectRef h \<and> wsRefH h = None \<longrightarrow>
            socketsH (reconnect_callbackH True h) = socketsH h @ [new_WebSocket])"
proof -
  have "offline s" using invar_offline[OF run_invar[OF assms(1)] assms(2)] .
  from offline_run[OF this assms(3)] have o: "offline s'" and e: "sockets s' = sockets s" by simp_all
  have "\<not> list_ex live (sockets s')"
    using o by (auto simp: offline_def list_ex_iff in_set_conv_nth live_def)
  moreover have "connect urlOk s' = s'" using o by (simp add: offline_def connect_def)
  ultimately have p: "sockets s' = sockets s \<and> \<not> list_ex live (sockets s') \<and> \<not> isConnected s' \<and>
         MAX_RECONNECT_ATTEMPTS \<le> reconnectAttemptsRef s' \<and> connect urlOk s' = s'"
    using o e by (simp add: offline_def)
  have q: "shouldReconnectRef h \<and> reconnectTimeoutRefH h = None \<longrightarrow>
            reconnectTimeoutRefH (oncloseH j h) = Some (nextHandleH h)"
    by (simp add: oncloseH_def Let_def)
  have r: "shouldReconnectRef h \<and> wsRefH h = None \<longrightarrow>
            socketsH (reconnect_callbackH True h) = socketsH h @ [new_WebSocket]"
    by (simp add: reconnect_callbackH_def connectH_def)
  from p q r show ?thesis by blast
qed

theorem C2_offline_after_max_witness:
  "(case run True [SocketClose 0, TimerFired 0, SocketClose 1, TimerFired 1, SocketClose 2,
       TimerFired 2, SocketClose 3, TimerFired 3, SocketClose 4] (mounted True {}) of
      None \<Rightarrow> False
    | Some s \<Rightarrow> reconnectAttemptsRef s = 5 \<and> MAX_RECONNECT_ATTEMPTS \<le> reconnectAttemptsRef s \<and>
        (case run True [TimerFired 4, CallSend (Some ''x''), Unmount] s of
           None \<Rightarrow> False
         | Some s' \<Rightarrow> sockets s' = sockets s \<and> length (sockets s') = 5 \<and> \<not> isConnected s'))
   \<and> shouldReconnectRef (initial_hook {}) \<and> wsRefH (initial_hook {}) = None
   \<and> socketsH (reconnect_callbackH True (initial_hook {})) = [new_WebSocket]"
proof -
  obtain s where s: "run True [SocketClose 0, TimerFired 0, SocketClose 1, TimerFired 1, SocketClose 2,
       TimerFired 2, SocketClose 3, TimerFired 3, SocketClose 4] (mounted True {}) = Some s"
    by (simp add: provider_defs)
  have a: "reconnectAttemptsRef s = 5" "length (sockets s) = 5"
    using s by (auto simp: provider_defs)
  then have m: "MAX_RECONNECT_ATTEMPTS \<le> reconnectAttemptsRef s"
    by (simp add: MAX_RECONNECT_ATTEMPTS_def)
  obtain s' where s': "run True [TimerFired 4, CallSend (Some ''x''), Unmount] s = Some s'"
    using s by (auto simp: provider_defs)
  have b: "shouldReconnectRef (initial_hook {})" "wsRefH (initial_hook {}) = None"
    "socketsH (initial_hook {}) = []"
    by (simp_all add: initial_hook_def)
  from C2_offline_after_max[OF s m s', of "initial_hook {}"] a m b show ?thesis
    by (simp only: s s' option.case) simp
qed

text \<open>
  The claim as stated fails for the hook: after six consecutive failed attempts it
  connects a seventh time, and that socket opens.
\<close>

theorem C2_counterexample:
  "runH True [SocketClose 0, TimerFired 0, SocketClose 1, TimerFired 1, SocketClose 2,
       TimerFired 2, SocketClose 3, TimerFired 3, SocketClose 4, TimerFired 4,
       SocketClose 5, TimerFired 5, SocketOpen 6] (mountedH True {}) =
     Some \<lparr>isConnectedH = True, wsRefH = Some 6, reconnectTimeoutRefH = None,
          shouldReconnectRef = True,
          socketsH =
            [\<lparr>readyState = CLOSED, sent = []\<rparr>, \<lparr>readyState = CLOSED, sent = []\<rparr>,
             \<lparr>readyState = CLOSED, sent = []\<rparr>, \<lparr>readyState = CLOSED, sent = []\<rparr>,
             \<lparr>readyState = CLOSED, sent = []\<rparr>, \<lparr>readyState = CLOSED, sent = []\<rparr>,
             \<lparr>readyState = OPEN, sent = []\<rparr>],
          timersH = [], nextHandleH = 6, queryClientH = {}\<rparr>"
  by (simp add: hook_defs)

text \<open>
  C3. Submitting for a subject id that has a non-terminal run fails with
  \<open>AlreadyRunning\<close> and leaves the runs as they were; submitting when every run of that
  subject id is terminal succeeds, returns an id no earlier run has, and adds one pending
  run. (Settled on \<open>submit\<close> as modelled from the specification.)
\<close>

theorem C3_submit:
  "(list_ex (\<lambda>r. subject_id r = subj \<and> \<not> terminal (status r)) rs \<longrightarrow>
      submit subj p rs = (Inl AlreadyRunning, rs))
   \<and> ((\<forall>r\<in>set rs. subject_id r = subj \<longrightarrow> terminal (status r)) \<longrightarrow>
      submit subj p rs =
        (Inr (length rs), rs @ [\<lparr>subject_id = subj, payload = p, status = Pending\<rparr>]))"
  by (auto simp: submit_def list_ex_iff)

theorem C3_submit_witness:
  "list_ex (\<lambda>r. subject_id r = ''doc-1'' \<and> \<not> terminal (status r))
      [\<lparr>subject_id = ''doc-1'', payload = ''a'', status = Running\<rparr>]
   \<and> submit ''doc-1'' ''b'' [\<lparr>subject_id = ''doc-1'', payload = ''a'', status = Running\<rparr>]
       = (Inl AlreadyRunning, [\<lparr>subject_id = ''doc-1'', payload = ''a'', status = Running\<rparr>])
   \<and> terminal (status \<lparr>subject_id = ''doc-1'', payload = ''a'', status = Failed\<rparr>)
   \<and> submit ''doc-1'' ''b'' [\<lparr>subject_id = ''doc-1'', payload = ''a'', status = Failed\<rparr>]
       = (Inr 1, [\<lparr>subject_id = ''doc-1'', payload = ''a'', status = Failed\<rparr>,
                  \<lparr>subject_id = ''doc-1'', payload = ''b'', status = Pending\<rparr>])"
proof -
  have a: "list_ex (\<lambda>r. subject_id r = ''doc-1'' \<and> \<not> terminal (status r))
      [\<lparr>subject_id = ''doc-1'', payload = ''a'', status = Running\<rparr>]"
    by (simp add: terminal_def)
  have b: "\<forall>r\<in>set [\<lparr>subject_id = ''doc-1'', payload = ''a'', status = Failed\<rparr>].
      subject_id r = ''doc-1'' \<longrightarrow> terminal (status r)"
    by (simp add: terminal_def)
  have c: "terminal (status \<lparr>subject_id = ''doc-1'', payload = ''a'', status = Failed\<rparr>)"
    by (simp add: terminal_def)
  from C3_submit[of "''doc-1''" "[\<lparr>subject_id = ''doc-1'', payload = ''a'', status = Running\<rparr>]" "''b''"]
    C3_submit[of "''doc-1''" "[\<lparr>subject_id = ''doc-1'', payload = ''a'', status = Failed\<rparr>]" "''b''"]
    a b c show ?thesis by simp
qed

text \<open>
  C4. Handling the same message a second time leaves the client state as the first
  handling left it: for the provider every field agrees (the query cache, the connection
  indicator, the refs and the timers), up to the transcript of what was sent on the
  sockets, where the reply to a ping is not part of the client's state; for the hook
  the two states are equal.
\<close>

theorem C4_idempotent:
  "(onmessage k d (onmessage k d s))\<lparr>sockets := socks\<rparr> = (onmessage k d s)\<lparr>sockets := socks\<rparr>
   \<and> onmessageH j d (onmessageH j d h) = onmessageH j d h"
  by (auto simp: onmessage_def onmessageH_def ws_send_def invalidateQueries_def Let_def
      split: message_data.splits ready_state.splits)

theorem C4_idempotent_witness:
  "queryClient (onmessage 0 (JsonValue (Some ''alert_created''))
      (onmessage 0 (JsonValue (Some ''alert_created'')) (mounted True {}))) = {[''alerts'']}
   \<and> queryClient (onmessage 0 (JsonValue (Some ''alert_created'')) (mounted True {})) = {[''alerts'']}
   \<and> queryClientH (onmessageH 0 (JsonValue (Some ''score_updated''))
      (onmessageH 0 (JsonValue (Some ''score_updated'')) (mountedH True {}))) = {[''compliance-score'']}"
proof -
  have a: "queryClient (onmessage 0 (JsonValue (Some ''alert_created'')) (mounted True {})) = {[''alerts'']}"
    by (simp add: provider_defs)
  have b: "queryClientH (onmessageH 0 (JsonValue (Some ''score_updated'')) (mountedH True {}))
      = {[''compliance-score'']}"
    by (simp add: hook_defs)
  have c: "queryClient (t\<lparr>sockets := x\<rparr>) = queryClient t" for t :: provider and x
    by simp
  have d: "queryClient (onmessage 0 (JsonValue (Some ''alert_created''))
      (onmessage 0 (JsonValue (Some ''alert_created'')) (mounted True {})))
      = queryClient (onmessage 0 (JsonValue (Some ''alert_created'')) (mounted True {}))"
    using C4_idempotent[where k = 0 and d = "JsonValue (Some ''alert_created'')"
        and s = "mounted True {}" and socks = "[]"]
    by (metis c)
  have e: "onmessageH 0 (JsonValue (Some ''score_updated''))
      (onmessageH 0 (JsonValue (Some ''score_updated'')) (mountedH True {}))
      = onmessageH 0 (JsonValue (Some ''score_updated'')) (mountedH True {})"
    using C4_idempotent[where d = "JsonValue (Some ''score_updated'')" and j = 0
        and h = "mountedH True {}"]
    by simp
  from a b d e show ?thesis by simp
qed

text \<open>
  C5 (as amended). In every execution of WebSocketProvider, a message of type
  \<open>ping\<close> delivered on a socket is answered by sending \<open>pong\<close> on that socket, and
  nothing else of the state changes. The handler of the hook useWebSocket does nothing
  on a ping: it sends no reply and changes no state.
\<close>

theorem C5_ping_pong:
  assumes "run urlOk es (mounted urlOk qc) = Some s"
    and "fire urlOk (SocketMessage k (JsonValue (Some ''ping''))) s = Some s'"
  shows "s' = s\<lparr>sockets := (sockets s)[k := (sockets s ! k)\<lparr>sent := sent (sockets s ! k) @ [''pong'']\<rparr>]\<rparr>
         \<and> onmessageH j (JsonValue (Some ''ping'')) h = h"
proof -
  have k: "k < length (sockets s)" "readyState (sockets s ! k) = OPEN"
    and s': "s' = onmessage k (JsonValue (Some ''ping'')) s"
    using assms(2) by (auto simp: fire_def split: if_splits)
  have "isMountedRef s"
    using live_mounted[OF run_invar[OF assms(1)] k(1)] k(2) by (simp add: live_def)
  then show ?thesis using s' k(2)
    by (simp add: onmessage_def ws_send_def onmessageH_def)
qed

theorem C5_ping_pong_witness:
  "(case run True [SocketOpen 0] (mounted True {}) of
      None \<Rightarrow> False
    | Some s \<Rightarrow>
        (case fire True (SocketMessage 0 (JsonValue (Some ''ping''))) s of
           None \<Rightarrow> False
         | Some s' \<Rightarrow> map sent (sockets s) = [[]] \<and> map sent (sockets s') = [[''pong'']] \<and>
             s' = s\<lparr>sockets := (sockets s)[0 := (sockets s ! 0)\<lparr>sent := sent (sockets s ! 0) @ [''pong'']\<rparr>]\<rparr>))"
proof -
  obtain s where s: "run True [SocketOpen 0] (mounted True {}) = Some s"
    by (simp add: provider_defs)
  obtain s' where s': "fire True (SocketMessage 0 (JsonValue (Some ''ping''))) s = Some s'"
    using s by (auto simp: provider_defs)
  have a: "map sent (sockets s) = [[]]" using s by (auto simp: provider_defs)
  have b: "map sent (sockets s') = [[''pong'']]" using s s' by (auto simp: provider_defs)
  from C5_ping_pong[OF s s'] a b show ?thesis
    by (simp only: s s' option.case)
qed

text \<open>
  The claim as stated fails for the hook: its open socket receives a ping and nothing
  is sent on it.
\<close>

theorem C5_counterexample:
  "runH True [SocketOpen 0] (mountedH True {}) =
     Some \<lparr>isConnectedH = True, wsRefH = Some 0, reconnectTimeoutRefH = None,
          shouldReconnectRef = True, socketsH = [\<lparr>readyState = OPEN, sent = []\<rparr>],
          timersH = [], nextHandleH = 0, queryClientH = {}\<rparr>
   \<and> fireH True (SocketMessage 0 (JsonValue (Some ''ping'')))
       \<lparr>isConnectedH = True, wsRefH = Some 0, reconnectTimeoutRefH = None,
          shouldReconnectRef = True, socketsH = [\<lparr>readyState = OPEN, sent = []\<rparr>],
          timersH = [], nextHandleH = 0, queryClientH = {}\<rparr> =
     Some \<lparr>isConnectedH = True, wsRefH = Some 0, reconnectTimeoutRefH = None,
          shouldReconnectRef = True, socketsH = [\<lparr>readyState = OPEN, sent = []\<rparr>],
          timersH = [], nextHandleH = 0, queryClientH = {}\<rparr>"
  by (simp add: hook_defs)

text \<open>
  C6 (as amended). The message types the handlers apply as invalidation signals are
  \<open>score_updated\<close>, which invalidates the queries under \<open>compliance-score\<close>, and
  \<open>alert_created\<close>, which invalidates those under \<open>alerts\<close>. A message of any other type,
  \<open>step_completed\<close>, \<open>run_failed\<close> and \<open>alert_raised\<close> among them, invalidates nothing.
  This holds for the provider's handler in every execution and for the hook's handler.
\<close>

theorem C6_invalidation:
  assumes "run urlOk es (mounted urlOk qc) = Some s"
    and "fire urlOk (SocketMessage k (JsonValue ty)) s = Some s'"
  shows "queryClient s' =
           (if ty = Some ''score_updated'' then insert [''compliance-score''] (queryClient s)
            else if ty = Some ''alert_created'' then insert [''alerts''] (queryClient s)
            else queryClient s)
         \<and> queryClientH (onmessageH j (JsonValue ty) h) =
           (if ty = Some ''score_updated'' then insert [''compliance-score''] (queryClientH h)
            else if ty = Some ''alert_created'' then insert [''alerts''] (queryClientH h)
            else queryClientH h)"
proof -
  have k: "k < length (sockets s)" "readyState (sockets s ! k) = OPEN"
    and s': "s' = onmessage k (JsonValue ty) s"
    using assms(2) by (auto simp: fire_def split: if_splits)
  have "isMountedRef s"
    using live_mounted[OF run_invar[OF assms(1)] k(1)] k(2) by (simp add: live_def)
  then show ?thesis using s' k(2)
    by (auto simp: onmessage_def ws_send_def onmessageH_def invalidateQueries_def Let_def)
qed

theorem C6_invalidation_witness:
  "(case run True [SocketOpen 0] (mounted True {}) of
      None \<Rightarrow> False
    | Some s \<Rightarrow>
        (case fire True (SocketMessage 0 (JsonValue (Some ''score_updated''))) s of
           None \<Rightarrow> False
         | Some s' \<Rightarrow> queryClient s = {} \<and> queryClient s' = {[''compliance-score'']}))"
proof -
  obtain s where s: "run True [SocketOpen 0] (mounted True {}) = Some s"
    by (simp add: provider_defs)
  obtain s' where s': "fire True (SocketMessage 0 (JsonValue (Some ''score_updated''))) s = Some s'"
    using s by (auto simp: provider_defs)
  have a: "queryClient s = {}" using s by (auto simp: provider_defs)
  from C6_invalidation[OF s s'] a have "queryClient s' = {[''compliance-score'']}" by simp
  with a show ?thesis
    by (simp only: s s' option.case)
qed

text \<open>
  The claim as stated fails: after \<open>step_completed\<close>, \<open>run_failed\<close> and
  \<open>alert_raised\<close> on an open socket, no query is invalidated, in the provider and in
  the hook.
\<close>

theorem C6_counterexample:
  "run True [SocketOpen 0] (mounted True {}) =
     Some \<lparr>isConnected = True, wsRef = Some 0, reconnectTimeoutRef = None,
          reconnectAttemptsRef = 0, isMountedRef = True,
          sockets = [\<lparr>readyState = OPEN, sent = []\<rparr>], timers = [],
          nextHandle = 0, queryClient = {}\<rparr>
   \<and> fire True (SocketMessage 0 (JsonValue (Some ''step_completed'')))
       \<lparr>isConnected = True, wsRef = Some 0, reconnectTimeoutRef = None,
          reconnectAttemptsRef = 0, isMountedRef = True,
          sockets = [\<lparr>readyState = OPEN, sent = []\<rparr>], timers = [],
          nextHandle = 0, queryClient = {}\<rparr> =
     Some \<lparr>isConnected = True, wsRef = Some 0, reconnectTimeoutRef = None,
          reconnectAttemptsRef = 0, isMountedRef = True,
          sockets = [\<lparr>readyState = OPEN, sent = []\<rparr>], timers = [],
          nextHandle = 0, queryClient = {}\<rparr>
   \<and> fire True (SocketMessage 0 (JsonValue (Some ''run_failed'')))
       \<lparr>isConnected = True, wsRef = Some 0, reconnectTimeoutRef = None,
          reconnectAttemptsRef = 0, isMountedRef = True,
          sockets = [\<lparr>readyState = OPEN, sent = []\<rparr>], timers = [],
          nextHandle = 0, queryClient = {}\<rparr> =
     Some \<lparr>isConnected = True, wsRef = Some 0, reconnectTimeoutRef = None,
          reconnectAttemptsRef = 0, isMountedRef = True,
          sockets = [\<lparr>readyState = OPEN, sent = []\<rparr>], timers = [],
          nextHandle = 0, queryClient = {}\<rparr>
   \<and> fire True (SocketMessage 0 (JsonValue (Some ''alert_raised'')))
       \<lparr>isConnected = True, wsRef = Some 0, reconnectTimeoutRef = None,
          reconnectAttemptsRef = 0, isMountedRef = True,
          sockets = [\<lparr>readyState = OPEN, sent = []\<rparr>], timers = [],
          nextHandle = 0, queryClient = {}\<rparr> =
     Some \<lparr>isConnected = True, wsRef = Some 0, reconnectTimeoutRef = None,
          reconnectAttemptsRef = 0, isMountedRef = True,
          sockets = [\<lparr>readyState = OPEN, sent = []\<rparr>], timers = [],
          nextHandle = 0, queryClient = {}\<rparr>
   \<and> fireH True (SocketMessage 0 (JsonValue (Some ''step_completed'')))
       \<lparr>isConnectedH = True, wsRefH = Some 0, reconnectTimeoutRefH = None,
          shouldReconnectRef = True, socketsH = [\<lparr>readyState = OPEN, sent = []\<rparr>],
          timersH = [], nextHandleH = 0, queryClientH = {}\<rparr> =
     Some \<lparr>isConnectedH = True, wsRefH = Some 0, reconnectTimeoutRefH = None,
          shouldReconnectRef = True, socketsH = [\<lparr>readyState = OPEN, sent = []\<rparr>],
          timersH = [], nextHandleH = 0, queryClientH = {}\<rparr>"
  by (simp add: provider_defs hook_defs)

text \<open>
  C7. In every execution of WebSocketProvider, the open event of a socket resets the
  attempt counter to 0 and sets \<open>isConnected\<close>.
\<close>

theorem C7_open_resets:
  assumes "run urlOk es (mounted urlOk qc) = Some s"
    and "fire urlOk (SocketOpen k) s = Some s'"
  shows "reconnectAttemptsRef s' = 0 \<and> isConnected s' \<and> readyState (sockets s' ! k) = OPEN"
proof -
  have k: "k < length (sockets s)" "readyState (sockets s ! k) = CONNECTING"
    and s': "s' = onopen k (s\<lparr>sockets := set_readyState k OPEN (sockets s)\<rparr>)"
    using assms(2) by (auto simp: fire_def split: if_splits)
  have "isMountedRef s"
    using live_mounted[OF run_invar[OF assms(1)] k(1)] k(2) by (simp add: live_def)
  then show ?thesis using s' k(1)
    by (simp add: onopen_def Let_def readyState_set_readyState split: option.splits)
qed

theorem C7_open_resets_witness:
  "(case run True [SocketClose 0, TimerFired 0] (mounted True {}) of
      None \<Rightarrow> False
    | Some s \<Rightarrow> reconnectAttemptsRef s = 1 \<and>
        (case fire True (SocketOpen 1) s of
           None \<Rightarrow> False
         | Some s' \<Rightarrow> reconnectAttemptsRef s' = 0 \<and> isConnected s' \<and>
             readyState (sockets s' ! 1) = OPEN))"
proof -
  obtain s where s: "run True [SocketClose 0, TimerFired 0] (mounted True {}) = Some s"
    by (simp add: provider_defs)
  have a: "reconnectAttemptsRef s = 1" using s by (auto simp: provider_defs)
  obtain s' where s': "fire True (SocketOpen 1) s = Some s'"
    using s by (auto simp: provider_defs)
  from C7_open_resets[OF s s'] a show ?thesis
    by (simp only: s s' option.case)
qed

text \<open>
  C8. At the Decision/Alert step with a score in \<open>[0, 100]\<close> and no alert sent yet: below
  the threshold the notification capability is invoked and \<open>alert_sent\<close> is recorded;
  at or above it the run terminates with no alert and no invocation. (Settled on
  \<open>decision_step\<close> as modelled from the specification, for every threshold; the witness
  takes the default 80.)
\<close>

theorem C8_decision:
  assumes "0 \<le> score r" "score r \<le> 100" "\<not> alert_sent r"
  shows "(score r < threshold \<longrightarrow>
            alert_sent (decision_step threshold r) \<and>
            notifications (decision_step threshold r) = notifications r + 1)
         \<and> (threshold \<le> score r \<longrightarrow>
            \<not> alert_sent (decision_step threshold r) \<and>
            notifications (decision_step threshold r) = notifications r \<and>
            terminal (run_status (decision_step threshold r)))"
  using assms by (auto simp: decision_step_def terminal_def)

theorem C8_decision_witness:
  "alert_sent (decision_step DEFAULT_THRESHOLD
      \<lparr>score = 65, alert_sent = False, notifications = 0, run_status = Running\<rparr>)
   \<and> notifications (decision_step DEFAULT_THRESHOLD
      \<lparr>score = 65, alert_sent = False, notifications = 0, run_status = Running\<rparr>) = 1
   \<and> \<not> alert_sent (decision_step DEFAULT_THRESHOLD
      \<lparr>score = 92, alert_sent = False, notifications = 0, run_status = Running\<rparr>)
   \<and> notifications (decision_step DEFAULT_THRESHOLD
      \<lparr>score = 92, alert_sent = False, notifications = 0, run_status = Running\<rparr>) = 0"
  using C8_decision[of "\<lparr>score = 65, alert_sent = False, notifications = 0, run_status = Running\<rparr>"
      DEFAULT_THRESHOLD]
    C8_decision[of "\<lparr>score = 92, alert_sent = False, notifications = 0, run_status = Running\<rparr>"
      DEFAULT_THRESHOLD]
  by (simp add: DEFAULT_THRESHOLD_def)

text \<open>
  C9. The claim: at every reachable state at most one socket is live, \<open>connect\<close> creates
  no socket while one is open or connecting, and at most one reconnect is pending. The
  code breaks it when the effect's setup runs a second time. Socket 0 is closing after
  the cleanup and socket 1 is the one \<^verbatim>\<open>wsRef\<close> holds. Socket 1 opens; then the close
  event of the stale socket 0 finds \<open>isMountedRef\<close> true again, sets \<^verbatim>\<open>wsRef\<close> to null
  although it holds socket 1, turns \<open>isConnected\<close> off and schedules a reconnect; the
  reconnect's \<open>connect\<close> sees no socket in \<^verbatim>\<open>wsRef\<close> and creates socket 2 while socket 1
  is open. Two sockets are live.
\<close>

theorem C9_two_live_sockets:
  "remounted True {} =
     \<lparr>isConnected = False, wsRef = Some 1, reconnectTimeoutRef = None,
      reconnectAttemptsRef = 0, isMountedRef = True,
      sockets = [\<lparr>readyState = CLOSING, sent = []\<rparr>, \<lparr>readyState = CONNECTING, sent = []\<rparr>],
      timers = [], nextHandle = 0, queryClient = {}\<rparr>
   \<and> run True [SocketOpen 1, SocketClose 0] (remounted True {}) =
     Some \<lparr>isConnected = False, wsRef = None, reconnectTimeoutRef = Some 0,
          reconnectAttemptsRef = 1, isMountedRef = True,
          sockets = [\<lparr>readyState = CLOSED, sent = []\<rparr>, \<lparr>readyState = OPEN, sent = []\<rparr>],
          timers = [(0, 3000)], nextHandle = 1, queryClient = {}\<rparr>
   \<and> run True [SocketOpen 1, SocketClose 0, TimerFired 0] (remounted True {}) =
     Some \<lparr>isConnected = False, wsRef = Some 2, reconnectTimeoutRef = None,
          reconnectAttemptsRef = 1, isMountedRef = True,
          sockets = [\<lparr>readyState = CLOSED, sent = []\<rparr>, \<lparr>readyState = OPEN, sent = []\<rparr>,
                     \<lparr>readyState = CONNECTING, sent = []\<rparr>],
          timers = [], nextHandle = 1, queryClient = {}\<rparr>
   \<and> length (filter live [\<lparr>readyState = CLOSED, sent = []\<rparr>, \<lparr>readyState = OPEN, sent = []\<rparr>,
                     \<lparr>readyState = CONNECTING, sent = []\<rparr>]) = 2"
  by (simp add: remounted_def provider_defs)

text \<open>
  With one setup the property holds: in every execution from \<open>mounted\<close> at most one
  socket is live and at most one reconnect timeout is pending, and while some socket is
  live \<open>connect\<close> changes nothing.
\<close>

lemma single_setup_single_connection:
  assumes "run urlOk es (mounted urlOk qc) = Some s"
  shows "length (filter live (sockets s)) \<le> 1 \<and> length (timers s) \<le> 1 \<and>
         (list_ex live (sockets s) \<longrightarrow> connect urlOk' s = s)"
proof -
  have inv: "invar s" using run_invar[OF assms] .
  have one: "length (filter live (sockets s)) \<le> 1"
    using live_unique[OF inv] by (intro filter_at_most_one) blast
  have "timers_ok s" using inv by (simp add: invar_def)
  then have tm: "length (timers s) \<le> 1"
    by (cases "reconnectTimeoutRef s") (auto simp: timers_ok_def dest: arg_cong[where f=length])
  have "connect urlOk' s = s" if "list_ex live (sockets s)"
  proof -
    from that obtain k where k: "k < length (sockets s)" "live (sockets s ! k)"
      by (auto simp: list_ex_iff in_set_conv_nth)
    from live_mounted[OF inv k] k(2) show ?thesis
      by (simp add: connect_def live_def)
  qed
  with one tm show ?thesis by simp
qed

text \<open>
  C10. \<open>send\<close> while \<^verbatim>\<open>wsRef\<close> holds no open socket returns normally with the state
  unchanged; while it holds an open socket, \<open>send\<close> transmits exactly the text
  \<^verbatim>\<open>JSON.stringify(data)\<close> on it and changes nothing else.
\<close>

theorem C10_send:
  "((\<forall>k. wsRef s = Some k \<longrightarrow> readyState (sockets s ! k) \<noteq> OPEN) \<longrightarrow> send stringify d s = Inr s)
   \<and> (wsRef s = Some k \<and> readyState (sockets s ! k) = OPEN \<and> stringify d = Some txt \<longrightarrow>
        send stringify d s =
          Inr (s\<lparr>sockets := (sockets s)[k := (sockets s ! k)\<lparr>sent := sent (sockets s ! k) @ [txt]\<rparr>]\<rparr>))"
  by (auto simp: send_def ws_send_def split: option.splits)

theorem C10_send_witness:
  "wsRef (mounted True {}) = Some 0 \<and> readyState (sockets (mounted True {}) ! 0) = CONNECTING
   \<and> send Some ''{}'' (mounted True {}) = Inr (mounted True {})
   \<and> (case run True [SocketOpen 0] (mounted True {}) of
        None \<Rightarrow> False
      | Some s \<Rightarrow> wsRef s = Some 0 \<and> readyState (sockets s ! 0) = OPEN \<and>
          (case send Some ''{}'' s of
             Inl e \<Rightarrow> False
           | Inr s' \<Rightarrow> map sent (sockets s') = [[''{}'']]))"
proof -
  have a: "wsRef (mounted True {}) = Some 0" "readyState (sockets (mounted True {}) ! 0) = CONNECTING"
    by (simp_all add: provider_defs)
  then have n: "\<forall>k. wsRef (mounted True {}) = Some k \<longrightarrow>
      readyState (sockets (mounted True {}) ! k) \<noteq> OPEN"
    by simp
  obtain s where s: "run True [SocketOpen 0] (mounted True {}) = Some s"
    by (simp add: provider_defs)
  have b: "wsRef s = Some 0" "readyState (sockets s ! 0) = OPEN" "map sent (sockets s) = [[]]"
    using s by (auto simp: provider_defs)
  have c: "send Some ''{}'' (mounted True {}) = Inr (mounted True {})"
    using C10_send[of "mounted True {}" Some "''{}''"] n by blast
  have d: "send Some ''{}'' s =
      Inr (s\<lparr>sockets := (sockets s)[0 := (sockets s ! 0)\<lparr>sent := sent (sockets s ! 0) @ [''{}'']\<rparr>]\<rparr>)"
    using C10_send[of s Some "''{}''" 0 "''{}''"] b by blast
  have e: "map sent ((sockets s)[0 := (sockets s ! 0)\<lparr>sent := sent (sockets s ! 0) @ [''{}'']\<rparr>])
      = [[''{}'']]"
    using b(3) by (cases "sockets s") auto
  from a b c d e show ?thesis
    by (simp only: s option.case) simp
qed

end
